theory Spec2Isabelle
  imports Main "HOL-Library.FSet"
begin

section \<open>Values and objects of \<^verbatim>\<open>O365/recipient.py\<close>\<close>

text \<open>
  The module is dynamically typed: \<^verbatim>\<open>Recipients.add\<close> dispatches on the run-time
  type of its argument, and the cloud conversions read JSON values. The values the code
  distinguishes are collected in \<open>pyval\<close>. A dictionary is a map from its (string) keys;
  equality of maps is the order-insensitive equality of Python dictionaries.

  Objects that are reached through a reference (the parent of a recipient or of a
  collection, and the collection itself) live in a store and are named by their address.
  A \<^verbatim>\<open>Recipient\<close> is held by value: none of the functions below assigns to a
  recipient after its creation. A value therefore does not tell which \<^verbatim>\<open>Recipient\<close>
  object it is; the one place where the code compares such objects, the membership test
  of \<^verbatim>\<open>remove\<close>, is modelled with an explicit result for the calls it cannot decide.
\<close>

type_synonym addr = nat

datatype ref = Null | Ref addr

datatype 'v recipient =
  Recipient (r_address: 'v) (r_name: 'v) (r_parent: ref) (r_field: "string option")

datatype pyval =
    PNone
  | PInt int
  | PStr string
  | PTuple "pyval list"
  | PList "pyval list"
  | PDict "string \<Rightarrow> pyval option"
  | PSet "pyval fset"
  | PRecipient "pyval recipient"

datatype error = ValueError | AttributeError | TypeError

text \<open>
  Python truth value: \<^verbatim>\<open>None\<close>, \<^verbatim>\<open>0\<close> and empty containers are false;
  \<^verbatim>\<open>Recipient.__bool__\<close> is \<^verbatim>\<open>bool(self.address)\<close>.
\<close>

fun truthy :: "pyval \<Rightarrow> bool" where
  "truthy PNone = False"
| "truthy (PInt i) = (i \<noteq> 0)"
| "truthy (PStr s) = (s \<noteq> [])"
| "truthy (PTuple xs) = (xs \<noteq> [])"
| "truthy (PList xs) = (xs \<noteq> [])"
| "truthy (PDict d) = (d \<noteq> Map.empty)"
| "truthy (PSet A) = (A \<noteq> {||})"
| "truthy (PRecipient (Recipient a n p f)) = truthy a"

text \<open>The expression \<^verbatim>\<open>x or ''\<close>.\<close>

definition or_empty :: "pyval \<Rightarrow> pyval" where
  "or_empty x = (if truthy x then x else PStr [])"

text \<open>
  \<^verbatim>\<open>Recipient.__init__(address=None, name=None, parent=None, field=None)\<close>.
\<close>

definition Recipient_init :: "pyval \<Rightarrow> pyval \<Rightarrow> ref \<Rightarrow> string option \<Rightarrow> pyval recipient" where
  "Recipient_init address name parent field =
     Recipient (or_empty address) (or_empty name) parent field"

subsection \<open>The store\<close>

text \<open>
  A \<^verbatim>\<open>Recipients\<close> object has the attributes \<^verbatim>\<open>_parent\<close>, \<^verbatim>\<open>_field\<close>,
  \<^verbatim>\<open>_recipients\<close> and \<^verbatim>\<open>untrack\<close>. Of an owning resource only the attribute
  \<^verbatim>\<open>_track_changes\<close> matters: \<open>Resource None\<close> is a resource whose attribute is
  \<^verbatim>\<open>None\<close>, \<open>Resource (Some S)\<close> one whose attribute is the set \<open>S\<close>. An address the
  store does not map is an object without that attribute.
\<close>

record recipients =
  c_parent :: ref
  c_field :: "string option"
  c_recipients :: "pyval recipient list"
  untrack :: bool

datatype obj = Resource "string set option" | Coll recipients

type_synonym heap = "addr \<Rightarrow> obj option"

text \<open>
  The value of \<^verbatim>\<open>getattr(parent, '_track_changes', None)\<close>. On a \<^verbatim>\<open>Recipients\<close>
  object the name \<^verbatim>\<open>_track_changes\<close> is a method.
\<close>

datatype attr = ANone | ASet addr "string set" | AMethod

definition getattr_track_changes :: "heap \<Rightarrow> ref \<Rightarrow> attr" where
  "getattr_track_changes h parent =
     (case parent of
        Null \<Rightarrow> ANone
      | Ref p \<Rightarrow>
          (case h p of
             None \<Rightarrow> ANone
           | Some (Resource None) \<Rightarrow> ANone
           | Some (Resource (Some S)) \<Rightarrow> ASet p S
           | Some (Coll c) \<Rightarrow> AMethod))"

text \<open>
  \<^verbatim>\<open>Recipients._track_changes\<close>. The attribute \<^verbatim>\<open>_field\<close> is \<^verbatim>\<open>None\<close> or a
  string, false when \<^verbatim>\<open>None\<close> or empty. The call \<^verbatim>\<open>.add(self._field)\<close> on a bound
  method raises \<^verbatim>\<open>AttributeError\<close>. A receiver that is no \<^verbatim>\<open>Recipients\<close> object
  has none of the attributes read here.
\<close>

definition track_changes :: "heap \<Rightarrow> addr \<Rightarrow> error option \<times> heap" where
  "track_changes h self =
     (case h self of
        Some (Coll c) \<Rightarrow>
          (case c_field c of
             None \<Rightarrow> (None, h)
           | Some f \<Rightarrow>
               (if f \<noteq> []
                   \<and> getattr_track_changes h (c_parent c) \<noteq> ANone
                   \<and> untrack c = False
                then (case getattr_track_changes h (c_parent c) of
                        ASet p S \<Rightarrow> (None, h(p \<mapsto> Resource (Some (insert f S))))
                      | _ \<Rightarrow> (Some AttributeError, h))
                else (None, h)))
      | _ \<Rightarrow> (Some AttributeError, h))"

text \<open>\<^verbatim>\<open>Recipients.clear\<close>.\<close>

definition clear :: "heap \<Rightarrow> addr \<Rightarrow> error option \<times> heap" where
  "clear h self =
     (case h self of
        Some (Coll c) \<Rightarrow> track_changes (h(self \<mapsto> Coll (c\<lparr>c_recipients := []\<rparr>))) self
      | _ \<Rightarrow> (Some AttributeError, h))"

text \<open>\<^verbatim>\<open>self._recipients.append(r)\<close>.\<close>

definition append_recipient :: "heap \<Rightarrow> addr \<Rightarrow> pyval recipient \<Rightarrow> error option \<times> heap" where
  "append_recipient h self r =
     (case h self of
        Some (Coll c) \<Rightarrow> (None, h(self \<mapsto> Coll (c\<lparr>c_recipients := c_recipients c @ [r]\<rparr>)))
      | _ \<Rightarrow> (Some AttributeError, h))"

text \<open>
  \<^verbatim>\<open>Recipient(address=a, name=n, parent=self._parent, field=self._field)\<close>, appended.
\<close>

definition append_new :: "heap \<Rightarrow> addr \<Rightarrow> pyval \<Rightarrow> pyval \<Rightarrow> error option \<times> heap" where
  "append_new h self address name =
     (case h self of
        Some (Coll c) \<Rightarrow>
          append_recipient h self (Recipient_init address name (c_parent c) (c_field c))
      | _ \<Rightarrow> (Some AttributeError, h))"

text \<open>
  \<^verbatim>\<open>Recipients.add\<close>. The result is the exception raised, if any, and the store at
  that moment: an exception does not undo what the call has done before. The unpacking
  \<^verbatim>\<open>name, address = recipients\<close> of a tuple that has not two components raises
  \<^verbatim>\<open>ValueError\<close>, as the last branch does.
\<close>

fun add :: "heap \<Rightarrow> addr \<Rightarrow> pyval \<Rightarrow> error option \<times> heap"
  and add_each :: "heap \<Rightarrow> addr \<Rightarrow> pyval list \<Rightarrow> error option \<times> heap" where
  "add h self recipients =
     (if truthy recipients then
        (case (case recipients of
                 PStr s \<Rightarrow> append_new h self recipients PNone
               | PRecipient r \<Rightarrow> append_recipient h self r
               | PTuple xs \<Rightarrow>
                   (case xs of
                      [name, address] \<Rightarrow>
                        (if truthy address then append_new h self address name else (None, h))
                    | _ \<Rightarrow> (Some ValueError, h))
               | PList xs \<Rightarrow> add_each h self xs
               | _ \<Rightarrow> (Some ValueError, h)) of
           (None, h') \<Rightarrow> track_changes h' self
         | (Some e, h') \<Rightarrow> (Some e, h'))
      else (None, h))"
| "add_each h self [] = (None, h)"
| "add_each h self (recipient # rest) =
     (case add h self recipient of
        (None, h') \<Rightarrow> add_each h' self rest
      | (Some e, h') \<Rightarrow> (Some e, h'))"

subsection \<open>Removal\<close>

text \<open>
  \<^verbatim>\<open>set(address)\<close> and the test \<^verbatim>\<open>x not in address\<close> hash their elements: lists,
  dictionaries and sets are unhashable (\<^verbatim>\<open>TypeError\<close>), a tuple is hashable when its
  components are.
\<close>

fun hashable :: "pyval \<Rightarrow> bool" where
  "hashable (PList xs) = False"
| "hashable (PDict d) = False"
| "hashable (PSet A) = False"
| "hashable (PTuple xs) = (\<forall>x \<in> set xs. hashable x)"
| "hashable PNone = True"
| "hashable (PInt i) = True"
| "hashable (PStr s) = True"
| "hashable (PRecipient r) = True"


text \<open>
  What \<^verbatim>\<open>address\<close> is when the loop of \<^verbatim>\<open>remove\<close> starts: a set (made from a
  string, a list or a tuple, or given as a set), or the argument itself: a dictionary,
  whose \<^verbatim>\<open>in\<close> tests its keys, or a value that is no container.
\<close>

datatype container = CSet "pyval set" | CDict "string \<Rightarrow> pyval option" | CNone

definition as_container :: "pyval \<Rightarrow> error + container" where
  "as_container address =
     (case address of
        PStr s \<Rightarrow> Inr (CSet {address})
      | PList xs \<Rightarrow> (if \<forall>x \<in> set xs. hashable x then Inr (CSet (set xs)) else Inl TypeError)
      | PTuple xs \<Rightarrow> (if \<forall>x \<in> set xs. hashable x then Inr (CSet (set xs)) else Inl TypeError)
      | PSet A \<Rightarrow> Inr (CSet (fset A))
      | PDict d \<Rightarrow> Inr (CDict d)
      | _ \<Rightarrow> Inr CNone)"





subsection \<open>Construction\<close>

text \<open>
  \<^verbatim>\<open>Recipients.__init__(self, recipients=None, parent=None, field=None)\<close>; \<open>self\<close> is
  the address of the object being initialised. When \<^verbatim>\<open>add\<close> raises, the last
  assignment is not reached.
\<close>

definition Recipients_init ::
  "heap \<Rightarrow> addr \<Rightarrow> pyval \<Rightarrow> ref \<Rightarrow> string option \<Rightarrow> error option \<times> heap" where
  "Recipients_init h self recipients parent field =
     (let h1 = h(self \<mapsto> Coll \<lparr>c_parent = parent, c_field = field,
                                 c_recipients = [], untrack = True\<rparr>)
      in case (if truthy recipients then add h1 self recipients else (None, h1)) of
           (None, h2) \<Rightarrow>
             (case h2 self of
                Some (Coll c) \<Rightarrow> (None, h2(self \<mapsto> Coll (c\<lparr>untrack := False\<rparr>)))
              | _ \<Rightarrow> (Some AttributeError, h2))
         | (Some e, h2) \<Rightarrow> (Some e, h2))"

subsection \<open>Conversion from and to cloud data\<close>

text \<open>
  The casing function \<^verbatim>\<open>self._cc\<close> of the owning resource is the parameter \<open>cc\<close>.
  \<^verbatim>\<open>d.get(k, default)\<close> exists on dictionaries only.
\<close>

definition dict_get :: "pyval \<Rightarrow> string \<Rightarrow> pyval \<Rightarrow> error + pyval" where
  "dict_get d k dflt =
     (case d of
        PDict m \<Rightarrow> Inr (case m k of Some v \<Rightarrow> v | None \<Rightarrow> dflt)
      | _ \<Rightarrow> Inl AttributeError)"

text \<open>
  \<^verbatim>\<open>HandleRecipientsMixin._recipient_from_cloud(self, recipient, field)\<close>; \<open>self\<close> is
  the address of the owning resource.
\<close>

definition recipient_from_cloud ::
  "(string \<Rightarrow> string) \<Rightarrow> addr \<Rightarrow> pyval \<Rightarrow> string option \<Rightarrow> error + pyval recipient" where
  "recipient_from_cloud cc self recipient field =
     (if truthy recipient then
        (case dict_get recipient (cc ''emailAddress'')
                (case recipient of PDict m \<Rightarrow> recipient | _ \<Rightarrow> PDict Map.empty) of
           Inl e \<Rightarrow> Inl e
         | Inr inner \<Rightarrow>
             (case dict_get inner (cc ''address'') (PStr []) of
                Inl e \<Rightarrow> Inl e
              | Inr address \<Rightarrow>
                  (case dict_get inner (cc ''name'') (PStr []) of
                     Inl e \<Rightarrow> Inl e
                   | Inr name \<Rightarrow> Inr (Recipient_init address name (Ref self) field))))
      else Inr (Recipient_init PNone PNone Null None))"

text \<open>
  \<^verbatim>\<open>HandleRecipientsMixin._recipient_to_cloud(self, recipient)\<close>. Only a
  \<^verbatim>\<open>Recipient\<close> has the attributes \<^verbatim>\<open>address\<close> and \<^verbatim>\<open>name\<close>.
\<close>

definition recipient_to_cloud :: "(string \<Rightarrow> string) \<Rightarrow> pyval \<Rightarrow> error + pyval" where
  "recipient_to_cloud cc recipient =
     (if truthy recipient then
        (case recipient of
           PRecipient r \<Rightarrow>
             (let inner = [cc ''address'' \<mapsto> r_address r];
                  inner' = (if truthy (r_name r) then inner(cc ''name'' \<mapsto> r_name r) else inner)
              in Inr (PDict [cc ''emailAddress'' \<mapsto> PDict inner']))
         | _ \<Rightarrow> Inl AttributeError)
      else Inr PNone)"

text \<open>
  The loop of \<^verbatim>\<open>_recipients_from_cloud\<close> over the items of \<^verbatim>\<open>recipients\<close>, given
  in the order the iteration yields them.
\<close>

fun from_cloud_each ::
  "(string \<Rightarrow> string) \<Rightarrow> addr \<Rightarrow> pyval list \<Rightarrow> string option \<Rightarrow> error + pyval recipient list" where
  "from_cloud_each cc self [] field = Inr []"
| "from_cloud_each cc self (recipient # rest) field =
     (case recipient_from_cloud cc self recipient field of
        Inl e \<Rightarrow> Inl e
      | Inr r \<Rightarrow>
          (case from_cloud_each cc self rest field of
             Inl e \<Rightarrow> Inl e
           | Inr rs \<Rightarrow> Inr (r # rs)))"

text \<open>
  \<^verbatim>\<open>HandleRecipientsMixin._recipients_from_cloud(self, recipients, field)\<close>; \<open>new\<close> is
  the address of the \<^verbatim>\<open>Recipients\<close> object it creates.
\<close>

definition recipients_from_cloud ::
  "(string \<Rightarrow> string) \<Rightarrow> heap \<Rightarrow> addr \<Rightarrow> addr \<Rightarrow> pyval list \<Rightarrow> string option
     \<Rightarrow> error option \<times> heap" where
  "recipients_from_cloud cc h self new recipients field =
     (case from_cloud_each cc self recipients field of
        Inl e \<Rightarrow> (Some e, h)
      | Inr recipients_data \<Rightarrow>
          Recipients_init h new (PList (map PRecipient recipients_data)) (Ref self) field)"

text \<open>The composition \<^verbatim>\<open>_recipient_to_cloud(_recipient_from_cloud(x))\<close>.\<close>

definition to_cloud_from_cloud ::
  "(string \<Rightarrow> string) \<Rightarrow> addr \<Rightarrow> string option \<Rightarrow> pyval \<Rightarrow> error + pyval" where
  "to_cloud_from_cloud cc self field x =
     (case recipient_from_cloud cc self x field of
        Inl e \<Rightarrow> Inl e
      | Inr r \<Rightarrow> recipient_to_cloud cc (PRecipient r))"

subsection \<open>Notions used in the statements\<close>

text \<open>\<^verbatim>\<open>Recipients.__iter__\<close>: the recipients of the collection at \<open>self\<close>, in order.\<close>

definition recipients_list :: "heap \<Rightarrow> addr \<Rightarrow> pyval recipient list" where
  "recipients_list h self = (case h self of Some (Coll c) \<Rightarrow> c_recipients c | _ \<Rightarrow> [])"

text \<open>
  The shapes for which \<^verbatim>\<open>add\<close> has no branch that appends or recurses: everything
  but a string, a \<^verbatim>\<open>Recipient\<close>, a list and a tuple of two components.
\<close>

definition unsupported :: "pyval \<Rightarrow> bool" where
  "unsupported x =
     (case x of
        PStr s \<Rightarrow> False
      | PRecipient r \<Rightarrow> False
      | PTuple xs \<Rightarrow> length xs \<noteq> 2
      | PList xs \<Rightarrow> False
      | _ \<Rightarrow> True)"

text \<open>
  \<open>marks c q h h'\<close>: the object at \<open>q\<close> is the parent of the collection \<open>c\<close>, tracking
  is engaged, and from \<open>h\<close> to \<open>h'\<close> the field of \<open>c\<close> has been added to the parent's
  set. \<open>extends c self h h'\<close>: from \<open>h\<close> to \<open>h'\<close> the collection at \<open>self\<close> has only
  grown at its end, and no other object has changed except the parent in that way.
\<close>

definition marks :: "recipients \<Rightarrow> addr \<Rightarrow> heap \<Rightarrow> heap \<Rightarrow> bool" where
  "marks c q h h' \<longleftrightarrow>
     (\<exists>f S. c_parent c = Ref q \<and> c_field c = Some f \<and> f \<noteq> [] \<and> \<not> untrack c
        \<and> h q = Some (Resource (Some S)) \<and> h' q = Some (Resource (Some (insert f S))))"

definition extends :: "recipients \<Rightarrow> addr \<Rightarrow> heap \<Rightarrow> heap \<Rightarrow> bool" where
  "extends c self h h' \<longleftrightarrow>
     (\<exists>rs. h' self = Some (Coll (c\<lparr>c_recipients := c_recipients c @ rs\<rparr>)))
     \<and> (\<forall>q. q \<noteq> self \<longrightarrow> h' q = h q \<or> marks c q h h')"

text \<open>
  A store for the examples: at address 0 a resource with an empty set of changed fields, at
  address 1 its collection for the field \<open>to\<close>, empty, with tracking engaged.
\<close>

definition example_collection :: recipients where
  "example_collection =
     \<lparr>c_parent = Ref 0, c_field = Some ''to'', c_recipients = [], untrack = False\<rparr>"

definition example_heap :: heap where
  "example_heap = [0 \<mapsto> Resource (Some {}), 1 \<mapsto> Coll example_collection]"

text \<open>Recipients for the examples: one without address, one without name, one with both.\<close>

definition recipient_no_address :: "pyval recipient" where
  "recipient_no_address = Recipient (PStr []) (PStr ''Bob'') Null None"

definition recipient_no_name :: "pyval recipient" where
  "recipient_no_name = Recipient (PStr ''b@x.com'') (PStr []) Null None"

definition recipient_bob :: "pyval recipient" where
  "recipient_bob = Recipient (PStr ''b@x.com'') (PStr ''Bob'') Null None"

text \<open>
  Cloud items for the examples, with the keys as the identity casing leaves them: the
  canonical shape with and without a name, one with an empty address, and one whose
  \<open>emailAddress\<close> entry is \<^verbatim>\<open>None\<close>.
\<close>

definition item_bob :: pyval where
  "item_bob =
     PDict [''emailAddress'' \<mapsto>
       PDict [''address'' \<mapsto> PStr ''b@x.com'', ''name'' \<mapsto> PStr ''Bob'']]"

definition item_no_name :: pyval where
  "item_no_name = PDict [''emailAddress'' \<mapsto> PDict [''address'' \<mapsto> PStr ''b@x.com'']]"

definition item_empty_address :: pyval where
  "item_empty_address =
     PDict [''emailAddress'' \<mapsto> PDict [''address'' \<mapsto> PStr [], ''name'' \<mapsto> PStr ''Bob'']]"

definition item_null_envelope :: pyval where
  "item_null_envelope = PDict [''emailAddress'' \<mapsto> PNone]"

definition item_flat_name_only :: pyval where
  "item_flat_name_only = PDict [''name'' \<mapsto> PStr ''Bob'']"

text \<open>
  The example store after the address \<open>a@x.com\<close> has been added to the collection: the
  recipient is appended and the field is in the parent's set.
\<close>

definition recipient_a :: "pyval recipient" where
  "recipient_a = Recipient (PStr ''a@x.com'') (PStr []) (Ref 0) (Some ''to'')"

definition example_heap_a :: heap where
  "example_heap_a =
     example_heap
       (1 \<mapsto> Coll (example_collection\<lparr>c_recipients := [recipient_a]\<rparr>),
        0 \<mapsto> Resource (Some {''to''}))"

text \<open>The mixed list of the specification: an address, a pair, and a pair without address.\<close>

definition mixed_list :: pyval where
  "mixed_list =
     PList [PStr ''a@x.com'', PTuple [PStr ''Bob'', PStr ''b@x.com''], PTuple [PStr [], PStr []]]"

text \<open>A store with the owning resource only, before its collection is constructed.\<close>

definition owner_heap :: heap where
  "owner_heap = [0 \<mapsto> Resource (Some {})]"





section \<open>Properties\<close>

declare add.simps [simp del]

subsection \<open>Unfolding \<^verbatim>\<open>add\<close>\<close>

lemma truthy_PRecipient: "truthy (PRecipient r) = truthy (r_address r)"
  by (cases r) simp

lemma add_not_truthy: "\<not> truthy recipients \<Longrightarrow> add h self recipients = (None, h)"
  by (subst add.simps) simp

lemma add_truthy:
  "truthy recipients \<Longrightarrow> add h self recipients =
     (case (case recipients of
              PStr s \<Rightarrow> append_new h self recipients PNone
            | PRecipient r \<Rightarrow> append_recipient h self r
            | PTuple xs \<Rightarrow>
                (case xs of
                   [name, address] \<Rightarrow>
                     (if truthy address then append_new h self address name else (None, h))
                 | _ \<Rightarrow> (Some ValueError, h))
            | PList xs \<Rightarrow> add_each h self xs
            | _ \<Rightarrow> (Some ValueError, h)) of
        (None, h') \<Rightarrow> track_changes h' self
      | (Some e, h') \<Rightarrow> (Some e, h'))"
  by (subst add.simps) simp

lemma add_each_append:
  "add_each h self (xs @ ys) =
     (case add_each h self xs of
        (None, h1) \<Rightarrow> add_each h1 self ys
      | (Some e, h1) \<Rightarrow> (Some e, h1))"
  by (induction xs arbitrary: h) (auto split: prod.splits option.splits)

lemma add_unsupported: "unsupported x \<Longrightarrow> truthy x \<Longrightarrow> add h self x = (Some ValueError, h)"
  by (subst add.simps) (auto simp: unsupported_def split: pyval.splits list.splits)

lemma track_changes_engaged:
  assumes "h self = Some (Coll c)" "c_parent c = Ref p" "h p = Some (Resource (Some S))"
    "c_field c = Some f" "f \<noteq> []" "\<not> untrack c"
  shows "track_changes h self = (None, h(p \<mapsto> Resource (Some (insert f S))))"
  using assms by (simp add: track_changes_def getattr_track_changes_def)

lemmas example_defs =
  example_heap_a_def recipient_a_def example_heap_def example_collection_def append_new_def append_recipient_def
  Recipient_init_def or_empty_def track_changes_def getattr_track_changes_def

subsection \<open>Falsy input\<close>

text \<open>
  Claim C10. \<^verbatim>\<open>add\<close> called with a value that is false in Python (\<^verbatim>\<open>None\<close>, the
  empty string, an empty list or tuple, an empty dictionary, a recipient without address)
  returns without an exception and leaves the whole store as it was: nothing is appended
  and nothing is added to the parent's set of changed fields.
\<close>

theorem add_falsy_is_noop: "\<not> truthy x \<Longrightarrow> add h self x = (None, h)"
  by (rule add_not_truthy)

theorem add_falsy_is_noop_witness:
  "\<not> truthy PNone \<and> add example_heap 1 PNone = (None, example_heap)
   \<and> \<not> truthy (PStr []) \<and> add example_heap 1 (PStr []) = (None, example_heap)
   \<and> \<not> truthy (PList []) \<and> add example_heap 1 (PList []) = (None, example_heap)
   \<and> \<not> truthy (PTuple []) \<and> add example_heap 1 (PTuple []) = (None, example_heap)
   \<and> \<not> truthy (PDict Map.empty) \<and> add example_heap 1 (PDict Map.empty) = (None, example_heap)"
  using add_falsy_is_noop [of PNone example_heap 1]
    add_falsy_is_noop [of "PStr []" example_heap 1]
    add_falsy_is_noop [of "PList []" example_heap 1]
    add_falsy_is_noop [of "PTuple []" example_heap 1]
    add_falsy_is_noop [of "PDict Map.empty" example_heap 1]
  by simp

subsection \<open>What \<^verbatim>\<open>add\<close> may change\<close>

lemma extends_refl: "h self = Some (Coll c) \<Longrightarrow> extends c self h h"
  unfolding extends_def by (auto intro: exI[of _ "[]"])

lemma extends_self: "extends c self h h' \<Longrightarrow> \<exists>c'. h' self = Some (Coll c')"
  unfolding extends_def by auto

lemma extends_trans:
  assumes "extends c self h h1" "h1 self = Some (Coll c1)" "extends c1 self h1 h2"
  shows "extends c self h h2"
proof -
  from assms(1,2) obtain rs1 where c1: "c1 = c\<lparr>c_recipients := c_recipients c @ rs1\<rparr>"
    unfolding extends_def by auto
  from assms(3) obtain rs2
    where "h2 self = Some (Coll (c1\<lparr>c_recipients := c_recipients c1 @ rs2\<rparr>))"
    unfolding extends_def by auto
  then have self: "h2 self = Some (Coll (c\<lparr>c_recipients := c_recipients c @ (rs1 @ rs2)\<rparr>))"
    by (simp add: c1)
  have "h2 q = h q \<or> marks c q h h2" if "q \<noteq> self" for q
  proof -
    from assms(1) that have a: "h1 q = h q \<or> marks c q h h1"
      unfolding extends_def by blast
    from assms(3) that have b: "h2 q = h1 q \<or> marks c1 q h1 h2"
      unfolding extends_def by blast
    from a b show ?thesis
      unfolding marks_def c1 by (elim disjE exE conjE) (simp_all, metis)
  qed
  with self show ?thesis unfolding extends_def by blast
qed

lemma track_changes_self:
  "h self = Some (Coll c) \<Longrightarrow> track_changes h self = (e, h') \<Longrightarrow> h' self = Some (Coll c)"
  unfolding track_changes_def getattr_track_changes_def
  by (auto split: option.splits if_splits attr.splits ref.splits obj.splits)

lemma track_changes_other:
  "h self = Some (Coll c) \<Longrightarrow> track_changes h self = (e, h') \<Longrightarrow> h' q = h q \<or> marks c q h h'"
  unfolding marks_def track_changes_def getattr_track_changes_def
  by (auto split: option.splits if_splits attr.splits ref.splits obj.splits)

lemma extends_track:
  assumes "h self = Some (Coll c)" "track_changes h self = (e, h')"
  shows "extends c self h h'"
proof -
  have "h' self = Some (Coll (c\<lparr>c_recipients := c_recipients c @ []\<rparr>))"
    using track_changes_self[OF assms] by simp
  then show ?thesis
    unfolding extends_def using track_changes_other[OF assms] by blast
qed

lemma extends_append:
  "h self = Some (Coll c) \<Longrightarrow> append_recipient h self r = (e, h') \<Longrightarrow> extends c self h h'"
  unfolding extends_def append_recipient_def by auto

lemma extends_append_new:
  "h self = Some (Coll c) \<Longrightarrow> append_new h self a n = (e, h') \<Longrightarrow> extends c self h h'"
  unfolding append_new_def by (simp add: extends_append)

text \<open>
  The branches of \<^verbatim>\<open>add\<close> before the notification, given the property for the
  recursive calls on the items of a list.
\<close>

lemma dispatch_extends:
  assumes self: "h self = Some (Coll c)"
    and rec: "\<And>xs. recipients = PList xs \<Longrightarrow> add_each h self xs = (e1, h1)
                \<Longrightarrow> extends c self h h1"
    and br: "(case recipients of
                PStr s \<Rightarrow> append_new h self recipients PNone
              | PRecipient r \<Rightarrow> append_recipient h self r
              | PTuple xs \<Rightarrow>
                  (case xs of
                     [name, address] \<Rightarrow>
                       (if truthy address then append_new h self address name else (None, h))
                   | _ \<Rightarrow> (Some ValueError, h))
              | PList xs \<Rightarrow> add_each h self xs
              | _ \<Rightarrow> (Some ValueError, h)) = (e1, h1)"
  shows "extends c self h h1"
proof (cases recipients)
  case (PList xs)
  with br have "add_each h self xs = (e1, h1)" by simp
  with PList show ?thesis by (rule rec)
next
  case (PTuple xs)
  show ?thesis
  proof (cases "\<exists>n a. xs = [n, a]")
    case True
    then obtain n a where xs: "xs = [n, a]" by blast
    show ?thesis
    proof (cases "truthy a")
      case True
      with br PTuple xs have "append_new h self a n = (e1, h1)" by simp
      with self show ?thesis by (rule extends_append_new)
    next
      case False
      with br PTuple xs have "h1 = h" by simp
      with self show ?thesis by (simp add: extends_refl)
    qed
  next
    case False
    with br PTuple have "h1 = h" by (auto split: list.splits)
    with self show ?thesis by (simp add: extends_refl)
  qed
next
  case (PStr s)
  with br have "append_new h self recipients PNone = (e1, h1)" by simp
  with self show ?thesis by (rule extends_append_new)
next
  case (PRecipient r)
  with br have "append_recipient h self r = (e1, h1)" by simp
  with self show ?thesis by (rule extends_append)
next
  case PNone
  with br have "h1 = h" by simp
  with self show ?thesis by (simp add: extends_refl)
next
  case (PInt i)
  with br have "h1 = h" by simp
  with self show ?thesis by (simp add: extends_refl)
next
  case (PDict d)
  with br have "h1 = h" by simp
  with self show ?thesis by (simp add: extends_refl)
next
  case (PSet A)
  with br have "h1 = h" by simp
  with self show ?thesis by (simp add: extends_refl)
qed

lemma add_extends:
  "h self = Some (Coll c) \<Longrightarrow> add h self x = (e, h') \<Longrightarrow> extends c self h h'"
  "h self = Some (Coll c) \<Longrightarrow> add_each h self xs = (e, h') \<Longrightarrow> extends c self h h'"
proof (induction h self x and h self xs arbitrary: c e h' and c e h' rule: add_add_each.induct)
  case (1 h self recipients)
  show ?case
  proof (cases "truthy recipients")
    case False
    with 1(3) have "h' = h" by (simp add: add_not_truthy)
    with 1(2) show ?thesis by (simp add: extends_refl)
  next
    case True
    define br where "br =
      (case recipients of
         PStr s \<Rightarrow> append_new h self recipients PNone
       | PRecipient r \<Rightarrow> append_recipient h self r
       | PTuple xs \<Rightarrow>
           (case xs of
              [name, address] \<Rightarrow>
                (if truthy address then append_new h self address name else (None, h))
            | _ \<Rightarrow> (Some ValueError, h))
       | PList xs \<Rightarrow> add_each h self xs
       | _ \<Rightarrow> (Some ValueError, h))"
    obtain e1 h1 where br: "br = (e1, h1)" by (cases br)
    have unf: "add h self recipients =
       (case br of (None, h') \<Rightarrow> track_changes h' self | (Some e, h') \<Rightarrow> (Some e, h'))"
      unfolding br_def by (rule add_truthy[OF True])
    have ext1: "extends c self h h1"
    proof (rule dispatch_extends[where h = h and self = self and c = c and recipients = recipients
          and ?e1.0 = e1 and ?h1.0 = h1])
      show "h self = Some (Coll c)" by (rule 1(2))
      show "extends c self h h1" if "recipients = PList xs" "add_each h self xs = (e1, h1)" for xs
        using 1(1)[OF True that(1) 1(2) that(2)] .
      show "(case recipients of
                PStr s \<Rightarrow> append_new h self recipients PNone
              | PRecipient r \<Rightarrow> append_recipient h self r
              | PTuple xs \<Rightarrow>
                  (case xs of
                     [name, address] \<Rightarrow>
                       (if truthy address then append_new h self address name else (None, h))
                   | _ \<Rightarrow> (Some ValueError, h))
              | PList xs \<Rightarrow> add_each h self xs
              | _ \<Rightarrow> (Some ValueError, h)) = (e1, h1)"
        using br unfolding br_def .
    qed
    show ?thesis
    proof (cases e1)
      case None
      with br unf 1(3) have tc: "track_changes h1 self = (e, h')" by simp
      from extends_self[OF ext1] obtain c1 where c1: "h1 self = Some (Coll c1)" ..
      show ?thesis by (rule extends_trans[OF ext1 c1 extends_track[OF c1 tc]])
    next
      case (Some a)
      with br unf 1(3) have "h' = h1" by simp
      with ext1 show ?thesis by simp
    qed
  qed
next
  case (2 h self)
  then show ?case by (simp add: extends_refl)
next
  case (3 h self recipient rest)
  obtain e1 h1 where a: "add h self recipient = (e1, h1)" by (cases "add h self recipient")
  from 3(1)[OF 3(3) a] have ext1: "extends c self h h1" .
  show ?case
  proof (cases e1)
    case None
    from extends_self[OF ext1] obtain c1 where c1: "h1 self = Some (Coll c1)" ..
    from a None 3(4) have "add_each h1 self rest = (e, h')" by simp
    from extends_trans[OF ext1 c1 3(2)[OF a[symmetric] None c1 this]] show ?thesis .
  next
    case (Some a')
    with a 3(4) have "h' = h1" by simp
    with ext1 show ?thesis by simp
  qed
qed

text \<open>
  A call of \<^verbatim>\<open>add\<close> on a true value is its dispatch, which only extends the
  collection, followed by the notification unless the dispatch raised.
\<close>

lemma add_truthy_split:
  assumes self: "h self = Some (Coll c)" and t: "truthy x"
  obtains e1 h1 where "extends c self h h1"
    and "add h self x = (case e1 of None \<Rightarrow> track_changes h1 self | Some e \<Rightarrow> (Some e, h1))"
proof -
  define br where "br =
      (case x of
         PStr s \<Rightarrow> append_new h self x PNone
       | PRecipient r \<Rightarrow> append_recipient h self r
       | PTuple xs \<Rightarrow>
           (case xs of
              [name, address] \<Rightarrow>
                (if truthy address then append_new h self address name else (None, h))
            | _ \<Rightarrow> (Some ValueError, h))
       | PList xs \<Rightarrow> add_each h self xs
       | _ \<Rightarrow> (Some ValueError, h))"
  obtain e1 h1 where br: "br = (e1, h1)" by (cases br)
  have "add h self x =
       (case br of (None, h') \<Rightarrow> track_changes h' self | (Some e, h') \<Rightarrow> (Some e, h'))"
    unfolding br_def by (rule add_truthy[OF t])
  with br have unf: "add h self x =
       (case e1 of None \<Rightarrow> track_changes h1 self | Some e \<Rightarrow> (Some e, h1))"
    by (simp split: option.splits)
  have "extends c self h h1"
  proof (rule dispatch_extends[where h = h and self = self and c = c and recipients = x
        and ?e1.0 = e1 and ?h1.0 = h1])
    show "h self = Some (Coll c)" by (rule self)
    show "extends c self h h1" if "add_each h self xs = (e1, h1)" for xs
      using add_extends(2)[OF self that] .
    show "(case x of
              PStr s \<Rightarrow> append_new h self x PNone
            | PRecipient r \<Rightarrow> append_recipient h self r
            | PTuple xs \<Rightarrow>
                (case xs of
                   [name, address] \<Rightarrow>
                     (if truthy address then append_new h self address name else (None, h))
                 | _ \<Rightarrow> (Some ValueError, h))
            | PList xs \<Rightarrow> add_each h self xs
            | _ \<Rightarrow> (Some ValueError, h)) = (e1, h1)"
      using br unfolding br_def .
  qed
  with unf show ?thesis by (rule that[rotated])
qed

subsection \<open>\<^verbatim>\<open>clear\<close>\<close>

text \<open>
  Claim C7. With tracking engaged (the parent has a set of changed fields, the field name
  is set and notifications are not suppressed), \<^verbatim>\<open>clear\<close> empties the sequence of
  the collection and adds the field name to the parent's set, whatever the sequence was
  before, an empty one included; nothing else changes.
\<close>

theorem clear_empties_and_notifies:
  assumes "h self = Some (Coll c)" "c_parent c = Ref p" "h p = Some (Resource (Some S))"
    "c_field c = Some f" "f \<noteq> []" "\<not> untrack c"
  shows "clear h self =
     (None, h(self \<mapsto> Coll (c\<lparr>c_recipients := []\<rparr>), p \<mapsto> Resource (Some (insert f S))))"
proof -
  from assms(1,3) have ne: "p \<noteq> self" by auto
  let ?h1 = "h(self \<mapsto> Coll (c\<lparr>c_recipients := []\<rparr>))"
  have "track_changes ?h1 self = (None, ?h1(p \<mapsto> Resource (Some (insert f S))))"
    by (rule track_changes_engaged[where c = "c\<lparr>c_recipients := []\<rparr>"])
      (use assms ne in simp_all)
  with assms(1) show ?thesis by (simp add: clear_def)
qed

theorem clear_empties_and_notifies_witness:
  "example_heap 1 = Some (Coll example_collection)
   \<and> c_parent example_collection = Ref 0
   \<and> example_heap 0 = Some (Resource (Some {}))
   \<and> c_field example_collection = Some ''to''
   \<and> c_recipients example_collection = []
   \<and> clear example_heap 1 =
       (None, example_heap(1 \<mapsto> Coll example_collection, 0 \<mapsto> Resource (Some {''to''})))"
  using clear_empties_and_notifies [of example_heap 1 example_collection 0 "{}" "''to''"]
  by (simp add: example_heap_def example_collection_def)

subsection \<open>Conversion to cloud data\<close>

text \<open>
  Claim C5. \<^verbatim>\<open>_recipient_to_cloud\<close> returns \<^verbatim>\<open>None\<close> for \<^verbatim>\<open>None\<close> and for a
  recipient whose address is false (empty), and never the empty dictionary. For a
  recipient with an address it returns the dictionary that maps the key for
  \<open>emailAddress\<close> to a dictionary with the address under the key for \<open>address\<close> and,
  exactly when the name is true (non-empty), the name under the key for \<open>name\<close>.
\<close>

theorem recipient_to_cloud_shape:
  "recipient_to_cloud cc PNone = Inr PNone
   \<and> (\<not> truthy (r_address r) \<longrightarrow> recipient_to_cloud cc (PRecipient r) = Inr PNone)
   \<and> (truthy (r_address r) \<longrightarrow>
        recipient_to_cloud cc (PRecipient r) =
          Inr (PDict [cc ''emailAddress'' \<mapsto>
                 PDict (if truthy (r_name r)
                        then [cc ''address'' \<mapsto> r_address r, cc ''name'' \<mapsto> r_name r]
                        else [cc ''address'' \<mapsto> r_address r])]))
   \<and> recipient_to_cloud cc x \<noteq> Inr (PDict Map.empty)"
proof -
  have "recipient_to_cloud cc x \<noteq> Inr (PDict Map.empty)"
    by (cases x) (auto simp: recipient_to_cloud_def Let_def)
  then show ?thesis
    by (simp add: recipient_to_cloud_def truthy_PRecipient)
qed

theorem recipient_to_cloud_shape_witness:
  "\<not> truthy (r_address recipient_no_address)
   \<and> recipient_to_cloud id (PRecipient recipient_no_address) = Inr PNone
   \<and> truthy (r_address recipient_no_name)
   \<and> recipient_to_cloud id (PRecipient recipient_no_name) =
       Inr (PDict [''emailAddress'' \<mapsto> PDict [''address'' \<mapsto> PStr ''b@x.com'']])
   \<and> truthy (r_address recipient_bob)
   \<and> recipient_to_cloud id (PRecipient recipient_bob) =
       Inr (PDict [''emailAddress'' \<mapsto>
              PDict [''address'' \<mapsto> PStr ''b@x.com'', ''name'' \<mapsto> PStr ''Bob'']])"
  using recipient_to_cloud_shape [of id recipient_no_address PNone]
    recipient_to_cloud_shape [of id recipient_no_name PNone]
    recipient_to_cloud_shape [of id recipient_bob PNone]
  by (simp add: recipient_no_address_def recipient_no_name_def recipient_bob_def)

subsection \<open>Conversion from cloud data\<close>

lemmas from_cloud_defs =
  to_cloud_from_cloud_def recipient_from_cloud_def dict_get_def Recipient_init_def
  or_empty_def recipient_to_cloud_def truthy_PRecipient

text \<open>
  Claim C1, as the code has it. An item of the canonical shape whose address is the empty
  string is converted to a recipient that is false, and \<^verbatim>\<open>_recipient_to_cloud\<close>
  returns \<^verbatim>\<open>None\<close> for it: the round trip does not give the item back.
\<close>

theorem roundtrip_empty_address_counterexample:
  "to_cloud_from_cloud id 0 None item_empty_address = Inr PNone
   \<and> to_cloud_from_cloud id 0 None item_empty_address \<noteq> Inr item_empty_address"
  by (simp add: from_cloud_defs item_empty_address_def)

text \<open>
  Claim C1, amended. For an item of the canonical shape with a non-empty address:
  converting it from cloud data and back gives the item itself when the name is non-empty,
  and an item without name entry is given back as it is, again without name entry. For
  an item whose \<open>emailAddress\<close> entry has the empty string as its address, converting
  it from cloud data and back gives \<^verbatim>\<open>None\<close>.
\<close>

theorem roundtrip_with_address:
  "(a \<noteq> [] \<longrightarrow> n \<noteq> [] \<longrightarrow>
      to_cloud_from_cloud cc self field
        (PDict [cc ''emailAddress'' \<mapsto>
           PDict [cc ''address'' \<mapsto> PStr a, cc ''name'' \<mapsto> PStr n]])
      = Inr (PDict [cc ''emailAddress'' \<mapsto>
           PDict [cc ''address'' \<mapsto> PStr a, cc ''name'' \<mapsto> PStr n]]))
   \<and> (a \<noteq> [] \<longrightarrow>
        to_cloud_from_cloud cc self field
          (PDict [cc ''emailAddress'' \<mapsto> PDict [cc ''address'' \<mapsto> PStr a]])
        = Inr (PDict [cc ''emailAddress'' \<mapsto> PDict [cc ''address'' \<mapsto> PStr a]]))
   \<and> (m (cc ''address'') = Some (PStr []) \<longrightarrow>
        to_cloud_from_cloud cc self field (PDict [cc ''emailAddress'' \<mapsto> PDict m])
        = Inr PNone)"
  by (simp add: from_cloud_defs)

theorem roundtrip_with_address_witness:
  "''b@x.com'' \<noteq> [] \<and> ''Bob'' \<noteq> []
   \<and> to_cloud_from_cloud id 0 None item_bob = Inr item_bob
   \<and> to_cloud_from_cloud id 0 None item_no_name = Inr item_no_name
   \<and> [''address'' \<mapsto> PStr [], ''name'' \<mapsto> PStr ''Bob''] ''address'' = Some (PStr [])
   \<and> to_cloud_from_cloud id 0 None item_empty_address = Inr PNone"
  using roundtrip_with_address
          [of "''b@x.com''" "''Bob''" id 0 None
              "[''address'' \<mapsto> PStr [], ''name'' \<mapsto> PStr ''Bob'']"]
  by (simp add: item_bob_def item_no_name_def item_empty_address_def)

text \<open>
  Claim C4, as the code has it. \<^verbatim>\<open>_recipient_from_cloud\<close> calls \<^verbatim>\<open>.get\<close> on every
  true input, and on the \<open>emailAddress\<close> entry it finds: a non-empty string, and a
  dictionary whose \<open>emailAddress\<close> entry is \<^verbatim>\<open>None\<close>, raise \<^verbatim>\<open>AttributeError\<close>.
\<close>

theorem recipient_from_cloud_raises_counterexample:
  "recipient_from_cloud id 0 (PStr ''a@x.com'') None = Inl AttributeError
   \<and> recipient_from_cloud id 0 item_null_envelope None = Inl AttributeError"
  by (simp add: from_cloud_defs item_null_envelope_def)

text \<open>
  Claim C4, amended. \<^verbatim>\<open>_recipient_from_cloud\<close> returns a recipient, without an
  exception, for every input that is false and for every dictionary whose \<open>emailAddress\<close>
  entry is missing or is a dictionary. A false input gives the recipient with empty
  address and name; otherwise address and name are read from the \<open>emailAddress\<close> entry,
  or from the dictionary itself when it has no such entry, and a missing or false value
  becomes the empty string.
\<close>

theorem recipient_from_cloud_on_mappings:
  "(\<not> truthy x \<longrightarrow>
      recipient_from_cloud cc self x field = Inr (Recipient (PStr []) (PStr []) Null None))
   \<and> (d \<noteq> Map.empty \<longrightarrow> d (cc ''emailAddress'') = None \<longrightarrow>
        recipient_from_cloud cc self (PDict d) field =
          Inr (Recipient
                 (or_empty (case d (cc ''address'') of None \<Rightarrow> PStr [] | Some v \<Rightarrow> v))
                 (or_empty (case d (cc ''name'') of None \<Rightarrow> PStr [] | Some v \<Rightarrow> v))
                 (Ref self) field))
   \<and> (d (cc ''emailAddress'') = Some (PDict m) \<longrightarrow>
        recipient_from_cloud cc self (PDict d) field =
          Inr (Recipient
                 (or_empty (case m (cc ''address'') of None \<Rightarrow> PStr [] | Some v \<Rightarrow> v))
                 (or_empty (case m (cc ''name'') of None \<Rightarrow> PStr [] | Some v \<Rightarrow> v))
                 (Ref self) field))"
proof -
  have "d \<noteq> Map.empty" if "d (cc ''emailAddress'') = Some (PDict m)"
    using that by auto
  then show ?thesis
    by (auto simp: recipient_from_cloud_def dict_get_def Recipient_init_def or_empty_def)
qed

theorem recipient_from_cloud_on_mappings_witness:
  "\<not> truthy PNone
   \<and> recipient_from_cloud id 0 PNone (Some ''to'') = Inr (Recipient (PStr []) (PStr []) Null None)
   \<and> \<not> truthy (PDict Map.empty)
   \<and> recipient_from_cloud id 0 (PDict Map.empty) (Some ''to'')
       = Inr (Recipient (PStr []) (PStr []) Null None)
   \<and> recipient_from_cloud id 0 item_flat_name_only (Some ''to'')
       = Inr (Recipient (PStr []) (PStr ''Bob'') (Ref 0) (Some ''to''))
   \<and> recipient_from_cloud id 0 item_no_name (Some ''to'')
       = Inr (Recipient (PStr ''b@x.com'') (PStr []) (Ref 0) (Some ''to''))"
  using recipient_from_cloud_on_mappings [of PNone id 0 "Some ''to''" Map.empty Map.empty]
    recipient_from_cloud_on_mappings [of "PDict Map.empty" id 0 "Some ''to''" Map.empty Map.empty]
    recipient_from_cloud_on_mappings
      [of PNone id 0 "Some ''to''" "[''name'' \<mapsto> PStr ''Bob'']" Map.empty]
    recipient_from_cloud_on_mappings
      [of PNone id 0 "Some ''to''" "[''emailAddress'' \<mapsto> PDict [''address'' \<mapsto> PStr ''b@x.com'']]"
          "[''address'' \<mapsto> PStr ''b@x.com'']"]
  by (simp add: item_flat_name_only_def item_no_name_def or_empty_def)

subsection \<open>\<^verbatim>\<open>add\<close>: unsupported shapes\<close>

text \<open>
  Claim C3, as the code has it. \<^verbatim>\<open>add\<close> of the list of an address and the number 5
  raises \<^verbatim>\<open>ValueError\<close> after the address has been appended and the parent notified:
  the sequence of the collection is not what it was before the call.
\<close>

theorem add_partial_counterexample:
  "add example_heap 1 (PList [PStr ''a@x.com'', PInt 5]) =
     (Some ValueError, example_heap_a)
   \<and> recipients_list example_heap 1 = []
   \<and> recipients_list (snd (add example_heap 1 (PList [PStr ''a@x.com'', PInt 5]))) 1
       = [recipient_a]
   \<and> recipients_list (snd (add example_heap 1 (PList [PStr ''a@x.com'', PInt 5]))) 1
       \<noteq> recipients_list example_heap 1"
  by (simp add: add_truthy add_not_truthy example_defs recipients_list_def)

text \<open>
  Claim C3, amended. \<^verbatim>\<open>add\<close> of a true value of unsupported shape raises
  \<^verbatim>\<open>ValueError\<close> and leaves the store, hence the sequence of the collection, exactly as
  it was. When such a value is an item of the list given to \<^verbatim>\<open>add\<close> and the items
  before it are added without exception, \<^verbatim>\<open>add\<close> raises \<^verbatim>\<open>ValueError\<close> as well, and
  the store is left as adding the items before it has made it: these items stay appended,
  the items after it are not looked at.
\<close>

theorem add_unsupported_raises:
  assumes "unsupported x" "truthy x"
  shows "add h self x = (Some ValueError, h)
       \<and> (add_each h self xs = (None, h1) \<longrightarrow>
            add h self (PList (xs @ x # ys)) = (Some ValueError, h1))"
proof -
  have direct: "add h' self x = (Some ValueError, h')" for h'
    using assms by (rule add_unsupported)
  have "add h self (PList (xs @ x # ys)) = (Some ValueError, h1)"
    if "add_each h self xs = (None, h1)"
  proof -
    have "add_each h self (xs @ x # ys) = (Some ValueError, h1)"
      using that by (simp add: add_each_append direct)
    then show ?thesis by (simp add: add_truthy)
  qed
  with direct show ?thesis by simp
qed

theorem add_unsupported_raises_witness:
  "unsupported (PInt 5) \<and> truthy (PInt 5)
   \<and> add example_heap 1 (PInt 5) = (Some ValueError, example_heap)
   \<and> add_each example_heap 1 [PStr ''a@x.com''] =
       (None, example_heap_a)
   \<and> add example_heap 1 (PList ([PStr ''a@x.com''] @ PInt 5 # [PStr ''c@x.com''])) =
       (Some ValueError, example_heap_a)"
proof -
  have u: "unsupported (PInt 5)" "truthy (PInt 5)"
    by (simp_all add: unsupported_def)
  have e: "add_each example_heap 1 [PStr ''a@x.com''] =
       (None, example_heap_a)"
    by (simp add: add_truthy example_defs)
  from add_unsupported_raises
         [OF u, of example_heap 1 "[PStr ''a@x.com'']" example_heap_a "[PStr ''c@x.com'']"] e u
  show ?thesis by simp
qed

subsection \<open>\<^verbatim>\<open>add\<close>: notification\<close>

text \<open>
  Claim C2, as the code has it. With tracking engaged, \<^verbatim>\<open>add\<close> of the pair of the
  name Bob and an empty address appends nothing, and yet the field name is added to the
  parent's set of changed fields.
\<close>

theorem add_pair_notifies_counterexample:
  "add example_heap 1 (PTuple [PStr ''Bob'', PStr []]) =
     (None, example_heap(0 \<mapsto> Resource (Some {''to''})))
   \<and> recipients_list (snd (add example_heap 1 (PTuple [PStr ''Bob'', PStr []]))) 1 = []
   \<and> snd (add example_heap 1 (PTuple [PStr ''Bob'', PStr []])) 0 \<noteq> example_heap 0"
  by (simp add: add_truthy example_defs recipients_list_def)

text \<open>
  Claim C2, amended. With tracking engaged, \<^verbatim>\<open>add\<close> of a pair whose address is false
  (empty) appends nothing and changes nothing but the parent's set of changed fields, to
  which the field name is added. The notification follows every call of \<^verbatim>\<open>add\<close> on
  a true input that returns without exception, whether or not a recipient was appended.
  Whatever \<^verbatim>\<open>add\<close> is given and however many recipients it appends, the parent's set
  after the call is the set before, or that set with the field name added.
\<close>

theorem add_notifies_once:
  assumes "h self = Some (Coll c)" "c_parent c = Ref p" "h p = Some (Resource (Some S))"
    "c_field c = Some f" "f \<noteq> []" "\<not> untrack c"
  shows "(\<not> truthy a \<longrightarrow>
            add h self (PTuple [n, a]) = (None, h(p \<mapsto> Resource (Some (insert f S)))))
       \<and> (truthy x \<longrightarrow> add h self x = (None, h') \<longrightarrow>
            h' p = Some (Resource (Some (insert f S))))
       \<and> (add h self x = (e, h'') \<longrightarrow>
            h'' p = Some (Resource (Some S)) \<or> h'' p = Some (Resource (Some (insert f S))))"
proof -
  from assms(1,3) have ne: "p \<noteq> self" by auto
  have step: "h1 p = Some (Resource (Some S)) \<or> h1 p = Some (Resource (Some (insert f S)))"
    if "extends c self h h1" for h1
  proof -
    from that ne have "h1 p = h p \<or> marks c p h h1" unfolding extends_def by blast
    then show ?thesis using assms(3,4) unfolding marks_def by auto
  qed
  have pair: "add h self (PTuple [n, a]) = (None, h(p \<mapsto> Resource (Some (insert f S))))"
    if "\<not> truthy a"
    using that track_changes_engaged[OF assms] by (simp add: add_truthy)
  have after: "h' p = Some (Resource (Some (insert f S)))"
    if t: "truthy x" and r: "add h self x = (None, h')"
  proof -
    from assms(1) t obtain e1 h1 where ext: "extends c self h h1"
      and unf: "add h self x =
        (case e1 of None \<Rightarrow> track_changes h1 self | Some e \<Rightarrow> (Some e, h1))"
      by (rule add_truthy_split)
    from r unf have tc: "track_changes h1 self = (None, h')"
      by (cases e1) simp_all
    from ext obtain rs where c1: "h1 self = Some (Coll (c\<lparr>c_recipients := c_recipients c @ rs\<rparr>))"
      unfolding extends_def by blast
    from step[OF ext] obtain S1 where S1: "h1 p = Some (Resource (Some S1))"
      and ins: "insert f S1 = insert f S" by auto
    have "track_changes h1 self = (None, h1(p \<mapsto> Resource (Some (insert f S1))))"
      by (rule track_changes_engaged[OF c1 _ S1]) (use assms in simp_all)
    with tc ins show ?thesis by auto
  qed
  have any: "h'' p = Some (Resource (Some S)) \<or> h'' p = Some (Resource (Some (insert f S)))"
    if "add h self x = (e, h'')"
    using step[OF add_extends(1)[OF assms(1) that]] .
  from pair after any show ?thesis by blast
qed

theorem add_notifies_once_witness:
  "example_heap 1 = Some (Coll example_collection)
   \<and> c_parent example_collection = Ref 0
   \<and> example_heap 0 = Some (Resource (Some {}))
   \<and> c_field example_collection = Some ''to''
   \<and> \<not> untrack example_collection
   \<and> \<not> truthy (PStr [])
   \<and> add example_heap 1 (PTuple [PStr ''Bob'', PStr []]) =
       (None, example_heap(0 \<mapsto> Resource (Some {''to''})))
   \<and> truthy (PStr ''a@x.com'')
   \<and> add example_heap 1 (PStr ''a@x.com'') = (None, example_heap_a)
   \<and> example_heap_a 0 = Some (Resource (Some {''to''}))"
proof -
  have a: "add example_heap 1 (PStr ''a@x.com'') = (None, example_heap_a)"
    by (simp add: add_truthy example_defs)
  from add_notifies_once
         [of example_heap 1 example_collection 0 "{}" "''to''" "PStr []" "PStr ''Bob''"
             "PStr ''a@x.com''" example_heap_a None example_heap_a] a
  show ?thesis by (simp add: example_heap_def example_collection_def)
qed

subsection \<open>\<^verbatim>\<open>add\<close>: the parent of an appended recipient\<close>

lemma track_changes_recipients_list:
  assumes "h self = Some (Coll c)"
  shows "recipients_list (snd (track_changes h self)) self = c_recipients c"
proof -
  obtain e h' where tc: "track_changes h self = (e, h')"
    by (cases "track_changes h self")
  from track_changes_self[OF assms tc] tc show ?thesis
    by (simp add: recipients_list_def)
qed

text \<open>
  Claim C9, as the code has it. The collection of the example is the object at address 1
  and its parent the object at address 0. The recipient that \<^verbatim>\<open>add\<close> makes of an
  address string has the parent of the collection as its parent, not the collection; a
  recipient built beforehand without parent is appended without parent.
\<close>

theorem added_recipient_parent_counterexample:
  "recipients_list (snd (add example_heap 1 (PStr ''a@x.com''))) 1 = [recipient_a]
   \<and> r_parent recipient_a = Ref 0
   \<and> r_parent recipient_a \<noteq> Ref 1
   \<and> recipients_list (snd (add example_heap 1 (PRecipient recipient_bob))) 1 = [recipient_bob]
   \<and> r_parent recipient_bob \<noteq> Ref 1"
  by (simp add: add_truthy example_defs recipients_list_def recipient_bob_def)

text \<open>
  Claim C9, amended. After \<^verbatim>\<open>add\<close> of a non-empty address string, or of a pair with
  a true address, the sequence of the collection is the one before with one recipient
  appended, whose parent is the parent of the collection and whose field name is the field
  name of the collection. After \<^verbatim>\<open>add\<close> of a recipient built beforehand (with a true
  address), that recipient is appended as it is, with the parent and the field name it had.
\<close>

theorem added_recipient_parent:
  assumes "h self = Some (Coll c)"
  shows "(s \<noteq> [] \<longrightarrow>
            recipients_list (snd (add h self (PStr s))) self =
              c_recipients c @ [Recipient (PStr s) (PStr []) (c_parent c) (c_field c)])
       \<and> (truthy a \<longrightarrow>
            recipients_list (snd (add h self (PTuple [n, a]))) self =
              c_recipients c @ [Recipient a (or_empty n) (c_parent c) (c_field c)])
       \<and> (truthy (PRecipient r) \<longrightarrow>
            recipients_list (snd (add h self (PRecipient r))) self = c_recipients c @ [r])"
proof -
  have app: "recipients_list (snd (track_changes
               (h(self \<mapsto> Coll (c\<lparr>c_recipients := c_recipients c @ [r']\<rparr>))) self)) self
             = c_recipients c @ [r']" for r'
    using track_changes_recipients_list
      [of "h(self \<mapsto> Coll (c\<lparr>c_recipients := c_recipients c @ [r']\<rparr>))" self
          "c\<lparr>c_recipients := c_recipients c @ [r']\<rparr>"]
    by simp
  have str: "recipients_list (snd (add h self (PStr s))) self =
               c_recipients c @ [Recipient (PStr s) (PStr []) (c_parent c) (c_field c)]"
    if "s \<noteq> []"
    using that assms app
    by (simp add: add_truthy append_new_def append_recipient_def Recipient_init_def or_empty_def)
  have pair: "recipients_list (snd (add h self (PTuple [n, a]))) self =
               c_recipients c @ [Recipient a (or_empty n) (c_parent c) (c_field c)]"
    if "truthy a"
  proof -
    have "truthy (PTuple [n, a])" by simp
    from add_truthy[OF this] that assms app show ?thesis
      by (simp add: append_new_def append_recipient_def Recipient_init_def or_empty_def)
  qed
  have built: "recipients_list (snd (add h self (PRecipient r))) self = c_recipients c @ [r]"
    if "truthy (PRecipient r)"
    using add_truthy[OF that] assms app
    by (simp add: append_recipient_def)
  from str pair built show ?thesis by blast
qed

theorem added_recipient_parent_witness:
  "example_heap 1 = Some (Coll example_collection)
   \<and> recipients_list (snd (add example_heap 1 (PStr ''a@x.com''))) 1
       = [Recipient (PStr ''a@x.com'') (PStr []) (Ref 0) (Some ''to'')]
   \<and> truthy (PStr ''b@x.com'')
   \<and> recipients_list (snd (add example_heap 1 (PTuple [PStr ''Bob'', PStr ''b@x.com'']))) 1
       = [Recipient (PStr ''b@x.com'') (PStr ''Bob'') (Ref 0) (Some ''to'')]
   \<and> truthy (PRecipient recipient_bob)
   \<and> recipients_list (snd (add example_heap 1 (PRecipient recipient_bob))) 1 = [recipient_bob]
   \<and> r_parent recipient_bob = Null"
proof -
  have h: "example_heap 1 = Some (Coll example_collection)"
    by (simp add: example_heap_def)
  from added_recipient_parent
         [of example_heap 1 example_collection "''a@x.com''" "PStr ''b@x.com''" "PStr ''Bob''"
             recipient_bob] h
  show ?thesis
    by (simp add: example_collection_def or_empty_def recipient_bob_def)
qed

subsection \<open>Construction\<close>

lemma track_changes_untracked:
  "untrack c \<Longrightarrow> track_changes (h(self \<mapsto> Coll c)) self = (None, h(self \<mapsto> Coll c))"
  by (simp add: track_changes_def split: option.splits)

lemma untracked_frame:
  assumes "extends c self h h'" "untrack c" "q \<noteq> self"
  shows "h' q = h q"
  using assms unfolding extends_def marks_def by blast

lemma Recipients_init_frame:
  assumes "q \<noteq> self"
  shows "snd (Recipients_init h self x parent field) q = h q"
proof -
  define c0 where "c0 =
    \<lparr>c_parent = parent, c_field = field, c_recipients = [], untrack = True\<rparr>"
  define h1 where "h1 = h(self \<mapsto> Coll c0)"
  obtain e h2 where r: "(if truthy x then add h1 self x else (None, h1)) = (e, h2)"
    by (cases "if truthy x then add h1 self x else (None, h1)")
  have h1: "h1 self = Some (Coll c0)" "untrack c0"
    by (simp_all add: h1_def c0_def)
  have "add h1 self x = (e, h2)"
    using r by (cases "truthy x") (simp_all add: add_not_truthy)
  from add_extends(1)[OF h1(1) this] have "extends c0 self h1 h2" .
  from untracked_frame[OF this h1(2) assms] assms have h2: "h2 q = h q"
    by (simp add: h1_def)
  have "snd (Recipients_init h self x parent field) q = h2 q"
    unfolding Recipients_init_def Let_def c0_def[symmetric] h1_def[symmetric] r
    using assms by (auto split: option.splits obj.splits)
  with h2 show ?thesis by simp
qed

text \<open>
  Claim C8. Constructing a collection, from any input and also through
  \<^verbatim>\<open>_recipients_from_cloud\<close>, changes no object but the new collection: the parent's
  set of changed fields is what it was, also when the construction raises. Constructed
  from the mixed list of the specification, the collection holds the recipient for
  \<open>a@x.com\<close> and the recipient for Bob, in this order; the pair without address is
  dropped, and nothing else in the store has changed.
\<close>

theorem construction_does_not_notify:
  assumes "q \<noteq> self"
  shows "snd (Recipients_init h self x parent field) q = h q
       \<and> snd (recipients_from_cloud cc h owner self items field) q = h q
       \<and> Recipients_init h self mixed_list parent field =
           (None,
            h(self \<mapsto> Coll \<lparr>c_parent = parent, c_field = field,
                 c_recipients = [Recipient (PStr ''a@x.com'') (PStr []) parent field,
                                 Recipient (PStr ''b@x.com'') (PStr ''Bob'') parent field],
                 untrack = False\<rparr>))
       \<and> length (recipients_list (snd (Recipients_init h self mixed_list parent field)) self) = 2"
proof -
  have cloud: "snd (recipients_from_cloud cc h owner self items field) q = h q"
    unfolding recipients_from_cloud_def
    by (cases "from_cloud_each cc owner items field") (simp_all add: Recipients_init_frame[OF assms])
  have mixed: "Recipients_init h self mixed_list parent field =
           (None,
            h(self \<mapsto> Coll \<lparr>c_parent = parent, c_field = field,
                 c_recipients = [Recipient (PStr ''a@x.com'') (PStr []) parent field,
                                 Recipient (PStr ''b@x.com'') (PStr ''Bob'') parent field],
                 untrack = False\<rparr>))"
    by (simp add: Recipients_init_def mixed_list_def add_truthy append_new_def
        append_recipient_def Recipient_init_def or_empty_def track_changes_untracked)
  from Recipients_init_frame[OF assms] cloud mixed show ?thesis
    by (simp add: recipients_list_def)
qed

theorem construction_does_not_notify_witness:
  "(0::nat) \<noteq> 1
   \<and> snd (Recipients_init owner_heap 1 mixed_list (Ref 0) (Some ''to'')) 0
       = Some (Resource (Some {}))
   \<and> recipients_list (snd (Recipients_init owner_heap 1 mixed_list (Ref 0) (Some ''to''))) 1
       = [Recipient (PStr ''a@x.com'') (PStr []) (Ref 0) (Some ''to''),
          Recipient (PStr ''b@x.com'') (PStr ''Bob'') (Ref 0) (Some ''to'')]
   \<and> snd (recipients_from_cloud id owner_heap 0 1 [item_bob, item_empty_address] (Some ''to'')) 0
       = Some (Resource (Some {}))
   \<and> recipients_list
         (snd (recipients_from_cloud id owner_heap 0 1 [item_bob, item_empty_address] (Some ''to''))) 1
       = [Recipient (PStr ''b@x.com'') (PStr ''Bob'') (Ref 0) (Some ''to'')]"
proof -
  have cloud: "recipients_list
         (snd (recipients_from_cloud id owner_heap 0 1 [item_bob, item_empty_address] (Some ''to''))) 1
       = [Recipient (PStr ''b@x.com'') (PStr ''Bob'') (Ref 0) (Some ''to'')]"
    by (simp add: recipients_from_cloud_def recipient_from_cloud_def dict_get_def
        item_bob_def item_empty_address_def Recipients_init_def add_truthy add_not_truthy
        append_recipient_def Recipient_init_def or_empty_def track_changes_untracked
        recipients_list_def)
  from construction_does_not_notify
         [of 0 1 owner_heap mixed_list "Ref 0" "Some ''to''" id 0
             "[item_bob, item_empty_address]"] cloud
  show ?thesis by (simp add: owner_heap_def recipients_list_def)
qed

subsection \<open>\<^verbatim>\<open>remove\<close>\<close>


text \<open>
  The arguments of \<^verbatim>\<open>remove\<close> that give a set of addresses: an address, a list or
  a tuple of addresses, a set of addresses.
\<close>

lemma as_container_addresses:
  "as_container (PStr s) = Inr (CSet {PStr s})"
  "as_container (PList (map PStr ss)) = Inr (CSet (PStr ` set ss))"
  "as_container (PTuple (map PStr ss)) = Inr (CSet (PStr ` set ss))"
  "as_container (PSet A) = Inr (CSet (fset A))"
  by (auto simp: as_container_def)





end
